theory Spec2Isabelle
  imports Main "HOL-Library.Char_ord" "HOL-Library.List_Lexorder"
begin

section \<open>Values, exceptions and the storage handler\<close>

text \<open>
  The repository holds two variants of \<^verbatim>\<open>createCacheProvider\<close>. The handler-driven
  variant (\<^verbatim>\<open>src/unnamed/part_000\<close>) stores SWR state records, prunes stale records
  while it loads, and reports failed writes to \<^verbatim>\<open>onError\<close>; its definitions carry
  the source's names. The simpler variant (\<^verbatim>\<open>src/src/cache-provider.ts\<close>) stores plain
  values and decides persistence by the shape of the key; its definitions carry the
  suffix \<open>_simple\<close>.
\<close>

type_synonym TKey = string

text \<open>What a JavaScript call can throw, or a promise can reject with.\<close>

datatype exn = TypeError | DOMException string | Thrown string

text \<open>
  The \<^verbatim>\<open>error\<close> field of a state: \<^verbatim>\<open>state.error instanceof Error\<close> tells a native
  error object from any other error value.
\<close>

datatype err = NativeError string | PlainError string

text \<open>
  \<^verbatim>\<open>SWRState<Data, Error>\<close>: every field is optional; \<open>None\<close> is \<^verbatim>\<open>undefined\<close>.
\<close>

record 'd TState =
  data :: "'d option"
  error :: "err option"
  isValidating :: "bool option"
  isLoading :: "bool option"

text \<open>
  An object store of the durable store: its records in cursor order, which is the
  order of their keys. The upgrade hook of a handler receives the store.
\<close>

type_synonym 'r IDBObjectStore = "(TKey \<times> 'r) list"

text \<open>
  The storage handler (its type declaration is not among the sources; the calls in
  \<^verbatim>\<open>createCacheProvider\<close> fix the arguments): \<^verbatim>\<open>revive(key, storeObject)\<close> and
  \<^verbatim>\<open>replace(key, value)\<close> return a value or \<^verbatim>\<open>undefined\<close> (\<open>Inr None\<close>), or throw
  (\<open>Inl\<close>); \<^verbatim>\<open>upgradeObjectStore\<close> is optional and receives the object store and the
  old version.
\<close>

record ('d, 'r) TStorageHandler =
  revive :: "TKey \<Rightarrow> 'r \<Rightarrow> exn + 'd TState option"
  replace :: "TKey \<Rightarrow> 'd TState \<Rightarrow> exn + 'r option"
  upgradeObjectStore :: "('r IDBObjectStore \<Rightarrow> nat \<Rightarrow> exn + 'r IDBObjectStore) option"

record ('d, 'r) TConfig =
  dbName :: string
  storeName :: string
  storageHandler :: "('d, 'r) TStorageHandler"
  version :: nat

text \<open>The handler of the simpler variant: \<^verbatim>\<open>revive(value)\<close>, \<^verbatim>\<open>replace(value)\<close>.\<close>

record ('v, 'r) TStorageHandler_simple =
  revive_simple :: "'r \<Rightarrow> exn + 'v"
  replace_simple :: "'v \<Rightarrow> exn + 'r"
  upgradeObjectStore_simple :: "('r IDBObjectStore \<Rightarrow> nat \<Rightarrow> exn + 'r IDBObjectStore) option"

record ('v, 'r) TConfig_simple =
  dbName_simple :: string
  storeName_simple :: string
  storageHandler_simple :: "('v, 'r) TStorageHandler_simple"
  version_simple :: nat

section \<open>The in-memory map\<close>

text \<open>
  A JavaScript \<^verbatim>\<open>Map\<close> keeps its entries in insertion order: \<^verbatim>\<open>set\<close> on a key it
  holds replaces the value in place, on a new key it appends; \<^verbatim>\<open>delete\<close> answers
  whether the key was there.
\<close>

fun Map_set :: "'k \<Rightarrow> 'v \<Rightarrow> ('k \<times> 'v) list \<Rightarrow> ('k \<times> 'v) list" where
  "Map_set k v [] = [(k, v)]"
| "Map_set k v (p # ps) = (if fst p = k then (k, v) # ps else p # Map_set k v ps)"

definition Map_get :: "('k \<times> 'v) list \<Rightarrow> 'k \<Rightarrow> 'v option" where
  "Map_get m k = map_of m k"

definition Map_has :: "('k \<times> 'v) list \<Rightarrow> 'k \<Rightarrow> bool" where
  "Map_has m k = (map_of m k \<noteq> None)"

definition Map_delete :: "'k \<Rightarrow> ('k \<times> 'v) list \<Rightarrow> bool \<times> ('k \<times> 'v) list" where
  "Map_delete k m = (Map_has m k, filter (\<lambda>p. fst p \<noteq> k) m)"

definition Map_keys :: "('k \<times> 'v) list \<Rightarrow> 'k list" where
  "Map_keys m = map fst m"

section \<open>The durable store\<close>

text \<open>
  The database named \<^verbatim>\<open>dbName\<close>: its version (0 before it is first created) and
  its object stores by name.
\<close>

record 'r IDBDatabase =
  db_version :: nat
  objectStores :: "string \<rightharpoonup> 'r IDBObjectStore"

text \<open>A put replaces the record of the key, or inserts it at the key's place.\<close>

fun store_put :: "TKey \<Rightarrow> 'r \<Rightarrow> 'r IDBObjectStore \<Rightarrow> 'r IDBObjectStore" where
  "store_put k v [] = [(k, v)]"
| "store_put k v (p # ps) =
     (if fst p = k then (k, v) # ps
      else if k < fst p then (k, v) # p # ps
      else p # store_put k v ps)"

definition store_delete :: "TKey \<Rightarrow> 'r IDBObjectStore \<Rightarrow> 'r IDBObjectStore" where
  "store_delete k s = filter (\<lambda>p. fst p \<noteq> k) s"

text \<open>
  \<^verbatim>\<open>deleteObjectStore\<close> and \<^verbatim>\<open>createObjectStore\<close> of a version-change transaction:
  the first throws for a store that does not exist, the second for one that does.
\<close>

definition deleteObjectStore :: "string \<Rightarrow> 'r IDBDatabase \<Rightarrow> exn + 'r IDBDatabase" where
  "deleteObjectStore name d =
     (case objectStores d name of
        None \<Rightarrow> Inl (DOMException ''NotFoundError'')
      | Some _ \<Rightarrow> Inr (d\<lparr>objectStores := (objectStores d)(name := None)\<rparr>))"

definition createObjectStore :: "string \<Rightarrow> 'r IDBDatabase \<Rightarrow> exn + 'r IDBDatabase" where
  "createObjectStore name d =
     (case objectStores d name of
        Some _ \<Rightarrow> Inl (DOMException ''ConstraintError'')
      | None \<Rightarrow> Inr (d\<lparr>objectStores := (objectStores d)(name \<mapsto> [])\<rparr>))"

text \<open>
  \<^verbatim>\<open>openDB(name, version, {upgrade})\<close>: the version is an integer from 1 to
  \<^verbatim>\<open>2^53 - 1 = 9007199254740991\<close>, and any other is a \<^verbatim>\<open>TypeError\<close>. A version
  below the database's fails, an equal one opens the database as it is, and a
  higher one runs \<^verbatim>\<open>upgrade\<close> with the old version
  and, when the callback does not throw, records the new version. A callback that
  throws aborts the version change: the database stays as it was and the open fails
  with an \<^verbatim>\<open>AbortError\<close>.
\<close>

definition openDB ::
  "'r IDBDatabase \<Rightarrow> nat \<Rightarrow> ('r IDBDatabase \<Rightarrow> nat \<Rightarrow> exn + 'r IDBDatabase)
     \<Rightarrow> exn + 'r IDBDatabase" where
  "openDB d v upgrade =
     (if v = 0 \<or> 9007199254740991 < v then Inl TypeError
      else if v < db_version d then Inl (DOMException ''VersionError'')
      else if v = db_version d then Inr d
      else (case upgrade d (db_version d) of
              Inl e \<Rightarrow> Inl (DOMException ''AbortError'')
            | Inr d' \<Rightarrow> Inr (d'\<lparr>db_version := v\<rparr>)))"

text \<open>
  A request against the durable store is settled by the environment: it is
  fulfilled, or rejected with a failure.
\<close>

datatype outcome = Fulfilled | Rejected exn

datatype 'r request = Put string 'r TKey | Delete string TKey | Clear string

text \<open>
  \<^verbatim>\<open>db.put\<close>, \<^verbatim>\<open>db.delete\<close>, \<^verbatim>\<open>db.clear\<close>: the promise is rejected when the store is
  missing or the environment fails the request, and the database is then unchanged.
\<close>

definition db_request :: "'r request \<Rightarrow> outcome \<Rightarrow> 'r IDBDatabase \<Rightarrow> exn + 'r IDBDatabase" where
  "db_request rq out d =
     (let name = (case rq of Put n _ _ \<Rightarrow> n | Delete n _ \<Rightarrow> n | Clear n \<Rightarrow> n) in
      case objectStores d name of
        None \<Rightarrow> Inl (DOMException ''NotFoundError'')
      | Some s \<Rightarrow>
          (case out of
             Rejected e \<Rightarrow> Inl e
           | Fulfilled \<Rightarrow>
               Inr (d\<lparr>objectStores := (objectStores d)(name \<mapsto>
                      (case rq of
                         Put _ v k \<Rightarrow> store_put k v s
                       | Delete _ k \<Rightarrow> store_delete k s
                       | Clear _ \<Rightarrow> []))\<rparr>)))"

section \<open>The handler-driven variant\<close>

text \<open>
  What the closures of the provider share, and what the environment sees of them:
  the map, the database, the requests issued so far, the failures handed to
  \<^verbatim>\<open>onError\<close>, and the rejections no handler caught.
\<close>

record ('d, 'r) provider =
  the_map :: "(TKey \<times> 'd TState) list"
  the_db :: "'r IDBDatabase"
  issued :: "'r request list"
  onError_calls :: "exn list"
  unhandled :: "exn list"

definition isFetchInfo :: "'d TState \<Rightarrow> bool" where
  "isFetchInfo state =
     ((case error state of Some (NativeError _) \<Rightarrow> True | _ \<Rightarrow> False) \<or>
      isValidating state = Some True \<or>
      isLoading state = Some True)"

definition upgrade ::
  "('d, 'r) TConfig \<Rightarrow> 'r IDBDatabase \<Rightarrow> nat \<Rightarrow> exn + 'r IDBDatabase" where
  "upgrade cfg upgradeDb oldVersion =
     (case (if oldVersion \<noteq> 0 \<and> version cfg > oldVersion
            then deleteObjectStore (storeName cfg) upgradeDb
            else Inr upgradeDb) of
        Inl e \<Rightarrow> Inl e
      | Inr d1 \<Rightarrow>
          (case createObjectStore (storeName cfg) d1 of
             Inl e \<Rightarrow> Inl e
           | Inr d2 \<Rightarrow>
               (case upgradeObjectStore (storageHandler cfg) of
                  None \<Rightarrow> Inr d2
                | Some hook \<Rightarrow>
                    (case hook [] oldVersion of
                       Inl e \<Rightarrow> Inl e
                     | Inr s \<Rightarrow>
                         Inr (d2\<lparr>objectStores := (objectStores d2)(storeName cfg \<mapsto> s)\<rparr>)))))"

text \<open>
  The cursor loop: the records still ahead of the cursor, the map built so far, and
  the object store, from which \<^verbatim>\<open>cursor.delete()\<close> removes the stale record.
\<close>

fun cursor_loop ::
  "('d, 'r) TStorageHandler \<Rightarrow> (TKey \<times> 'r) list \<Rightarrow> (TKey \<times> 'd TState) list
     \<Rightarrow> 'r IDBObjectStore \<Rightarrow> exn + ((TKey \<times> 'd TState) list \<times> 'r IDBObjectStore)" where
  "cursor_loop h [] m s = Inr (m, s)"
| "cursor_loop h ((key, raw) # rest) m s =
     (case revive h key raw of
        Inl e \<Rightarrow> Inl e
      | Inr None \<Rightarrow> cursor_loop h rest m (store_delete key s)
      | Inr (Some v) \<Rightarrow> cursor_loop h rest (Map_set key v m) s)"

definition createCacheProvider ::
  "('d, 'r) TConfig \<Rightarrow> 'r IDBDatabase \<Rightarrow> exn + ('d, 'r) provider" where
  "createCacheProvider cfg idb =
     (case openDB idb (version cfg) (upgrade cfg) of
        Inl e \<Rightarrow> Inl e
      | Inr d \<Rightarrow>
          (case objectStores d (storeName cfg) of
             None \<Rightarrow> Inl (DOMException ''NotFoundError'')
           | Some recs \<Rightarrow>
               (case cursor_loop (storageHandler cfg) recs [] recs of
                  Inl e \<Rightarrow> Inl e
                | Inr (m, s) \<Rightarrow>
                    Inr \<lparr>the_map = m,
                         the_db = d\<lparr>objectStores := (objectStores d)(storeName cfg \<mapsto> s)\<rparr>,
                         issued = [], onError_calls = [], unhandled = []\<rparr>)))"

text \<open>
  A request followed by \<^verbatim>\<open>.catch(onError)\<close>, and one whose promise is dropped.
\<close>

definition request_catch ::
  "'r request \<Rightarrow> outcome \<Rightarrow> ('d, 'r) provider \<Rightarrow> ('d, 'r) provider" where
  "request_catch rq out st =
     (case db_request rq out (the_db st) of
        Inl e \<Rightarrow> st\<lparr>issued := issued st @ [rq], onError_calls := onError_calls st @ [e]\<rparr>
      | Inr d \<Rightarrow> st\<lparr>issued := issued st @ [rq], the_db := d\<rparr>)"

definition request_dropped ::
  "'r request \<Rightarrow> outcome \<Rightarrow> ('d, 'r) provider \<Rightarrow> ('d, 'r) provider" where
  "request_dropped rq out st =
     (case db_request rq out (the_db st) of
        Inl e \<Rightarrow> st\<lparr>issued := issued st @ [rq], unhandled := unhandled st @ [e]\<rparr>
      | Inr d \<Rightarrow> st\<lparr>issued := issued st @ [rq], the_db := d\<rparr>)"

definition cache_keys :: "('d, 'r) provider \<Rightarrow> TKey list" where
  "cache_keys st = Map_keys (the_map st)"

definition cache_get :: "TKey \<Rightarrow> ('d, 'r) provider \<Rightarrow> 'd TState option" where
  "cache_get key st = Map_get (the_map st) key"

text \<open>
  \<^verbatim>\<open>set\<close> returns the provider after the call and the exception the caller sees, if
  any. The outcome settles the put, when one is issued.
\<close>

definition cache_set ::
  "('d, 'r) TConfig \<Rightarrow> TKey \<Rightarrow> 'd TState \<Rightarrow> outcome \<Rightarrow> ('d, 'r) provider
     \<Rightarrow> ('d, 'r) provider \<times> exn option" where
  "cache_set cfg key v out st =
     (let st1 = st\<lparr>the_map := Map_set key v (the_map st)\<rparr> in
      if isFetchInfo v then (st1, None)
      else (case replace (storageHandler cfg) key v of
              Inl e \<Rightarrow> (st1, Some e)
            | Inr None \<Rightarrow> (st1, None)
            | Inr (Some storeValue) \<Rightarrow>
                (request_catch (Put (storeName cfg) storeValue key) out st1, None)))"

definition cache_delete ::
  "('d, 'r) TConfig \<Rightarrow> TKey \<Rightarrow> outcome \<Rightarrow> ('d, 'r) provider \<Rightarrow> ('d, 'r) provider" where
  "cache_delete cfg key out st =
     (let (was, m) = Map_delete key (the_map st); st1 = st\<lparr>the_map := m\<rparr> in
      if was then request_catch (Delete (storeName cfg) key) out st1 else st1)"

definition cache_clear ::
  "('d, 'r) TConfig \<Rightarrow> outcome \<Rightarrow> ('d, 'r) provider \<Rightarrow> ('d, 'r) provider" where
  "cache_clear cfg out st =
     request_dropped (Clear (storeName cfg)) out (st\<lparr>the_map := []\<rparr>)"

text \<open>
  The object the returned factory builds from \<^verbatim>\<open>globalCache\<close>: its five methods.
\<close>

record ('d, 'r) TCache =
  keys_method :: "('d, 'r) provider \<Rightarrow> TKey list"
  get_method :: "TKey \<Rightarrow> ('d, 'r) provider \<Rightarrow> 'd TState option"
  set_method ::
    "TKey \<Rightarrow> 'd TState \<Rightarrow> outcome \<Rightarrow> ('d, 'r) provider \<Rightarrow> ('d, 'r) provider \<times> exn option"
  delete_method :: "TKey \<Rightarrow> outcome \<Rightarrow> ('d, 'r) provider \<Rightarrow> ('d, 'r) provider"
  clear_method :: "outcome \<Rightarrow> ('d, 'r) provider \<Rightarrow> ('d, 'r) provider"

definition cacheProvider :: "('d, 'r) TConfig \<Rightarrow> 'g \<Rightarrow> ('d, 'r) TCache" where
  "cacheProvider cfg globalCache =
     \<lparr>keys_method = cache_keys,
      get_method = cache_get,
      set_method = cache_set cfg,
      delete_method = cache_delete cfg,
      clear_method = cache_clear cfg\<rparr>"

text \<open>
  A caller's sequence of calls, each with the outcome of the request it may issue; a
  caller that catches the exception of a \<^verbatim>\<open>set\<close> goes on with the next call.
\<close>

datatype 'd call = Set TKey "'d TState" | Del TKey | Clr

fun step :: "('d, 'r) TConfig \<Rightarrow> ('d, 'r) provider \<Rightarrow> 'd call \<times> outcome \<Rightarrow> ('d, 'r) provider" where
  "step cfg st (Set k v, out) = fst (cache_set cfg k v out st)"
| "step cfg st (Del k, out) = cache_delete cfg k out st"
| "step cfg st (Clr, out) = cache_clear cfg out st"

definition run ::
  "('d, 'r) TConfig \<Rightarrow> ('d call \<times> outcome) list \<Rightarrow> ('d, 'r) provider \<Rightarrow> ('d, 'r) provider" where
  "run cfg cs st = foldl (step cfg) st cs"

text \<open>The records of the provider's object store.\<close>

definition durable :: "('d, 'r) TConfig \<Rightarrow> ('d, 'r) provider \<Rightarrow> 'r IDBObjectStore" where
  "durable cfg st =
     (case objectStores (the_db st) (storeName cfg) of None \<Rightarrow> [] | Some s \<Rightarrow> s)"

text \<open>
  The persistence decision of \<^verbatim>\<open>set\<close>: whether \<^verbatim>\<open>set(key, v)\<close> reaches \<^verbatim>\<open>db.put\<close>.
\<close>

definition eligible :: "('d, 'r) TConfig \<Rightarrow> TKey \<Rightarrow> 'd TState \<Rightarrow> bool" where
  "eligible cfg key v =
     (if isFetchInfo v then False
      else (case replace (storageHandler cfg) key v of Inr (Some _) \<Rightarrow> True | _ \<Rightarrow> False))"

section \<open>The simpler variant\<close>

record ('v, 'r) provider_simple =
  the_map_simple :: "(TKey \<times> 'v) list"
  the_db_simple :: "'r IDBDatabase"
  issued_simple :: "'r request list"
  unhandled_simple :: "exn list"

text \<open>\<^verbatim>\<open>!key.startsWith('$')\<close>\<close>

fun isResponseResult :: "TKey \<Rightarrow> bool" where
  "isResponseResult [] = True"
| "isResponseResult (c # cs) = (c \<noteq> CHR ''$'')"

definition upgrade_simple ::
  "('v, 'r) TConfig_simple \<Rightarrow> 'r IDBDatabase \<Rightarrow> nat \<Rightarrow> exn + 'r IDBDatabase" where
  "upgrade_simple cfg upgradeDb oldVersion =
     (case createObjectStore (storeName_simple cfg) upgradeDb of
        Inl e \<Rightarrow> Inl e
      | Inr d2 \<Rightarrow>
          (case upgradeObjectStore_simple (storageHandler_simple cfg) of
             None \<Rightarrow> Inr d2
           | Some hook \<Rightarrow>
               (case hook [] oldVersion of
                  Inl e \<Rightarrow> Inl e
                | Inr s \<Rightarrow>
                    Inr (d2\<lparr>objectStores := (objectStores d2)(storeName_simple cfg \<mapsto> s)\<rparr>))))"

fun cursor_loop_simple ::
  "('v, 'r) TStorageHandler_simple \<Rightarrow> (TKey \<times> 'r) list \<Rightarrow> (TKey \<times> 'v) list
     \<Rightarrow> exn + (TKey \<times> 'v) list" where
  "cursor_loop_simple h [] m = Inr m"
| "cursor_loop_simple h ((key, raw) # rest) m =
     (case revive_simple h raw of
        Inl e \<Rightarrow> Inl e
      | Inr v \<Rightarrow> cursor_loop_simple h rest (Map_set key v m))"

definition createCacheProvider_simple ::
  "('v, 'r) TConfig_simple \<Rightarrow> 'r IDBDatabase \<Rightarrow> exn + ('v, 'r) provider_simple" where
  "createCacheProvider_simple cfg idb =
     (case openDB idb (version_simple cfg) (upgrade_simple cfg) of
        Inl e \<Rightarrow> Inl e
      | Inr d \<Rightarrow>
          (case objectStores d (storeName_simple cfg) of
             None \<Rightarrow> Inl (DOMException ''NotFoundError'')
           | Some recs \<Rightarrow>
               (case cursor_loop_simple (storageHandler_simple cfg) recs [] of
                  Inl e \<Rightarrow> Inl e
                | Inr m \<Rightarrow>
                    Inr \<lparr>the_map_simple = m, the_db_simple = d,
                         issued_simple = [], unhandled_simple = []\<rparr>)))"

text \<open>Neither \<^verbatim>\<open>db.put\<close> nor \<^verbatim>\<open>db.delete\<close> has a rejection handler here.\<close>

definition request_simple ::
  "'r request \<Rightarrow> outcome \<Rightarrow> ('v, 'r) provider_simple \<Rightarrow> ('v, 'r) provider_simple" where
  "request_simple rq out st =
     (case db_request rq out (the_db_simple st) of
        Inl e \<Rightarrow> st\<lparr>issued_simple := issued_simple st @ [rq],
                     unhandled_simple := unhandled_simple st @ [e]\<rparr>
      | Inr d \<Rightarrow> st\<lparr>issued_simple := issued_simple st @ [rq], the_db_simple := d\<rparr>)"


definition cache_set_simple ::
  "('v, 'r) TConfig_simple \<Rightarrow> TKey \<Rightarrow> 'v \<Rightarrow> outcome \<Rightarrow> ('v, 'r) provider_simple
     \<Rightarrow> ('v, 'r) provider_simple \<times> exn option" where
  "cache_set_simple cfg key v out st =
     (let st1 = st\<lparr>the_map_simple := Map_set key v (the_map_simple st)\<rparr> in
      if isResponseResult key
      then (case replace_simple (storageHandler_simple cfg) v of
              Inl e \<Rightarrow> (st1, Some e)
            | Inr storeValue \<Rightarrow>
                (request_simple (Put (storeName_simple cfg) storeValue key) out st1, None))
      else (st1, None))"

definition cache_delete_simple ::
  "('v, 'r) TConfig_simple \<Rightarrow> TKey \<Rightarrow> outcome \<Rightarrow> ('v, 'r) provider_simple
     \<Rightarrow> ('v, 'r) provider_simple" where
  "cache_delete_simple cfg key out st =
     (let (was, m) = Map_delete key (the_map_simple st); st1 = st\<lparr>the_map_simple := m\<rparr> in
      if was \<and> isResponseResult key
      then request_simple (Delete (storeName_simple cfg) key) out st1
      else st1)"

datatype 'v call_simple = Set_simple TKey 'v | Del_simple TKey

fun step_simple ::
  "('v, 'r) TConfig_simple \<Rightarrow> ('v, 'r) provider_simple \<Rightarrow> 'v call_simple \<times> outcome
     \<Rightarrow> ('v, 'r) provider_simple" where
  "step_simple cfg st (Set_simple k v, out) = fst (cache_set_simple cfg k v out st)"
| "step_simple cfg st (Del_simple k, out) = cache_delete_simple cfg k out st"

definition run_simple ::
  "('v, 'r) TConfig_simple \<Rightarrow> ('v call_simple \<times> outcome) list \<Rightarrow> ('v, 'r) provider_simple
     \<Rightarrow> ('v, 'r) provider_simple" where
  "run_simple cfg cs st = foldl (step_simple cfg) st cs"

definition durable_simple ::
  "('v, 'r) TConfig_simple \<Rightarrow> ('v, 'r) provider_simple \<Rightarrow> 'r IDBObjectStore" where
  "durable_simple cfg st =
     (case objectStores (the_db_simple st) (storeName_simple cfg) of
        None \<Rightarrow> [] | Some s \<Rightarrow> s)"

section \<open>What the specification says of reads\<close>

text \<open>
  The value implied by the last call that affects the key: the value of a \<^verbatim>\<open>set\<close>
  of the key, nothing after a \<^verbatim>\<open>delete\<close> of the key or a \<^verbatim>\<open>clear\<close>, and the value
  held before the sequence when no call affects the key.
\<close>

fun affects :: "TKey \<Rightarrow> 'd call \<Rightarrow> bool" where
  "affects k (Set k' v) = (k' = k)"
| "affects k (Del k') = (k' = k)"
| "affects k Clr = True"

definition implied_value :: "TKey \<Rightarrow> 'd call list \<Rightarrow> 'd TState option \<Rightarrow> 'd TState option" where
  "implied_value k cs before =
     (case filter (affects k) cs of
        [] \<Rightarrow> before
      | c # cs' \<Rightarrow> (case last (c # cs') of Set _ v \<Rightarrow> Some v | _ \<Rightarrow> None))"

section \<open>Concrete inputs\<close>

text \<open>
  The default handler, \<^verbatim>\<open>storage-handler/simple\<close>, is not among the sources.
  Modelled from the spec: identity-like encoding and decoding of plain values, with
  a state that carries a native error object not persisted.
\<close>

definition simpleStorageHandler :: "('d, 'd TState) TStorageHandler" where
  "simpleStorageHandler =
     \<lparr>revive = (\<lambda>key storeObject. Inr (Some storeObject)),
      replace = (\<lambda>key v. (case error v of
                             Some (NativeError _) \<Rightarrow> Inr None
                           | _ \<Rightarrow> Inr (Some v))),
      upgradeObjectStore = None\<rparr>"


definition throwingHandler :: "('d, 'd TState) TStorageHandler" where
  "throwingHandler =
     \<lparr>revive = (\<lambda>key storeObject. Inr (Some storeObject)),
      replace = (\<lambda>key v. Inl (Thrown ''replace'')),
      upgradeObjectStore = None\<rparr>"

definition config_of :: "('d, 'r) TStorageHandler \<Rightarrow> nat \<Rightarrow> ('d, 'r) TConfig" where
  "config_of h v = \<lparr>dbName = ''swr'', storeName = ''responses'', storageHandler = h, version = v\<rparr>"

definition config_simple :: "(nat, nat) TConfig_simple" where
  "config_simple =
     \<lparr>dbName_simple = ''swr'', storeName_simple = ''responses'',
      storageHandler_simple =
        \<lparr>revive_simple = Inr, replace_simple = Inr, upgradeObjectStore_simple = None\<rparr>,
      version_simple = 1\<rparr>"

text \<open>
  A handler whose upgrade hook puts a record in the new object store, and
  configurations of the simpler variant: one that stores SWR states as they are, and
  one whose \<^verbatim>\<open>revive\<close> answers \<^verbatim>\<open>undefined\<close> (\<open>None\<close>) for every record.
\<close>

definition seedingHandler :: "(nat, nat TState) TStorageHandler" where
  "seedingHandler =
     \<lparr>revive = (\<lambda>key storeObject. Inr (Some storeObject)),
      replace = (\<lambda>key v. Inr (Some v)),
      upgradeObjectStore =
        Some (\<lambda>objectStore oldVersion.
          Inr (store_put ''seed''
                 \<lparr>data = Some 0, error = None, isValidating = None, isLoading = None\<rparr>
                 objectStore))\<rparr>"



definition no_database :: "'r IDBDatabase" where
  "no_database = \<lparr>db_version = 0, objectStores = Map.empty\<rparr>"

definition database_of :: "nat \<Rightarrow> 'r IDBObjectStore \<Rightarrow> 'r IDBDatabase" where
  "database_of v s = \<lparr>db_version = v, objectStores = [''responses'' \<mapsto> s]\<rparr>"

definition result_of :: "nat \<Rightarrow> nat TState" where
  "result_of d = \<lparr>data = Some d, error = None, isValidating = None, isLoading = None\<rparr>"

definition validating :: "nat TState" where
  "validating = \<lparr>data = None, error = None, isValidating = Some True, isLoading = None\<rparr>"

definition provider_of ::
  "(TKey \<times> 'd TState) list \<Rightarrow> 'r IDBObjectStore \<Rightarrow> ('d, 'r) provider" where
  "provider_of m s =
     \<lparr>the_map = m, the_db = database_of 1 s, issued = [], onError_calls = [], unhandled = []\<rparr>"

definition provider_simple_of ::
  "(TKey \<times> 'v) list \<Rightarrow> 'r IDBObjectStore \<Rightarrow> ('v, 'r) provider_simple" where
  "provider_simple_of m s =
     \<lparr>the_map_simple = m, the_db_simple = database_of 1 s,
      issued_simple = [], unhandled_simple = []\<rparr>"

section \<open>The map and the object store\<close>

lemma map_of_Map_set: "map_of (Map_set k v m) = (map_of m)(k \<mapsto> v)"
  by (induction m) (auto simp: fun_eq_iff)

lemma map_of_store_put: "map_of (store_put k v s) = (map_of s)(k \<mapsto> v)"
  by (induction s) (auto simp: fun_eq_iff)

lemma map_of_filter_key: "map_of (filter (\<lambda>p. fst p \<noteq> k) m) = (map_of m)(k := None)"
  by (induction m) (auto simp: fun_eq_iff)

lemma filter_absent: "map_of m k = None \<Longrightarrow> filter (\<lambda>p. fst p \<noteq> k) m = m"
  by (induction m) (auto split: if_splits)

section \<open>Reads see the last write\<close>

lemma the_map_request_catch: "the_map (request_catch rq out st) = the_map st"
  by (simp add: request_catch_def split: sum.splits)

lemma the_map_request_dropped: "the_map (request_dropped rq out st) = the_map st"
  by (simp add: request_dropped_def split: sum.splits)

lemma the_map_cache_set:
  "the_map (fst (cache_set cfg k v out st)) = Map_set k v (the_map st)"
  by (simp add: cache_set_def Let_def the_map_request_catch split: sum.splits option.splits)

lemma the_map_cache_delete:
  "the_map (cache_delete cfg k out st) = filter (\<lambda>p. fst p \<noteq> k) (the_map st)"
  by (simp add: cache_delete_def Map_delete_def Let_def the_map_request_catch)

lemma the_map_cache_clear: "the_map (cache_clear cfg out st) = []"
  by (simp add: cache_clear_def the_map_request_dropped)

lemma cache_get_step:
  "cache_get k (step cfg st (c, out)) =
     (if affects k c then (case c of Set _ v \<Rightarrow> Some v | _ \<Rightarrow> None) else cache_get k st)"
  by (cases c)
     (simp_all add: cache_get_def Map_get_def the_map_cache_set the_map_cache_delete
        the_map_cache_clear map_of_Map_set map_of_filter_key)

lemma run_snoc: "run cfg (cs @ [c]) st = step cfg (run cfg cs st) c"
  by (simp add: run_def)

lemma implied_value_snoc:
  "implied_value k (cs @ [c]) before =
     (if affects k c then (case c of Set _ v \<Rightarrow> Some v | _ \<Rightarrow> None)
      else implied_value k cs before)"
  by (cases "filter (affects k) cs") (simp_all add: implied_value_def)

lemma cache_get_run:
  "cache_get k (run cfg cs st) = implied_value k (map fst cs) (cache_get k st)"
proof (induction cs rule: rev_induct)
  case Nil
  show ?case by (simp add: run_def implied_value_def)
next
  case (snoc c cs)
  obtain a out where c: "c = (a, out)" by (cases c)
  show ?case
    unfolding run_snoc c using snoc.IH
    by (simp add: cache_get_step implied_value_snoc)
qed

text \<open>
  C1. After any sequence of \<^verbatim>\<open>set\<close>, \<^verbatim>\<open>delete\<close> and \<^verbatim>\<open>clear\<close> calls, whatever the
  outcomes of the requests they issue and whatever the handler does, \<^verbatim>\<open>get(key)\<close>
  returns the value implied by the last call that affects the key; and \<^verbatim>\<open>set\<close>
  has written the map on every path through it, before the persistence decision.
\<close>

theorem get_after_calls:
  "cache_get k (run cfg cs st) = implied_value k (map fst cs) (cache_get k st) \<and>
   the_map (fst (cache_set cfg k v out st)) = Map_set k v (the_map st)"
  by (simp add: cache_get_run the_map_cache_set)

section \<open>Entries that are not persisted\<close>






text \<open>
  C10. When \<^verbatim>\<open>replace\<close> throws during the \<^verbatim>\<open>set\<close> of an entry that passed
  \<^verbatim>\<open>isFetchInfo\<close>, the caller of \<^verbatim>\<open>set\<close> sees the exception; the map holds the new
  entry all the same, and \<^verbatim>\<open>get\<close> of the key returns it.
\<close>

theorem replace_throws_map_updated:
  assumes "\<not> isFetchInfo v" and "replace (storageHandler cfg) k v = Inl e"
  shows "cache_set cfg k v out st = (st\<lparr>the_map := Map_set k v (the_map st)\<rparr>, Some e) \<and>
         cache_get k (fst (cache_set cfg k v out st)) = Some v"
  using assms by (simp add: cache_set_def cache_get_def Map_get_def map_of_Map_set)

theorem replace_throws_map_updated_witness:
  "snd (cache_set (config_of throwingHandler 1) ''user:1'' (result_of 7) Fulfilled
      (provider_of [] [])) = Some (Thrown ''replace'') \<and>
   cache_get ''user:1'' (fst (cache_set (config_of throwingHandler 1) ''user:1'' (result_of 7)
      Fulfilled (provider_of [] []))) = Some (result_of 7)"
proof -
  have a: "\<not> isFetchInfo (result_of 7)"
    by (simp add: isFetchInfo_def result_of_def)
  have b: "replace (storageHandler (config_of throwingHandler 1)) ''user:1'' (result_of 7)
             = Inl (Thrown ''replace'')"
    by (simp add: config_of_def throwingHandler_def)
  from replace_throws_map_updated [OF a b, of Fulfilled "provider_of [] []"]
  show ?thesis by auto
qed

section \<open>The fallback cache\<close>

text \<open>
  C9. The object the factory returns is the same for any two \<^verbatim>\<open>globalCache\<close>
  arguments: none of \<^verbatim>\<open>keys\<close>, \<^verbatim>\<open>get\<close>, \<^verbatim>\<open>set\<close>, \<^verbatim>\<open>delete\<close> and \<^verbatim>\<open>clear\<close> consults
  it.
\<close>

theorem globalCache_ignored: "cacheProvider cfg globalCache = cacheProvider cfg globalCache'"
  by (simp add: cacheProvider_def)

section \<open>Loading the snapshot\<close>

lemma map_of_store_delete: "map_of (store_delete k s) = (map_of s)(k := None)"
  by (simp add: store_delete_def map_of_filter_key)



lemma createCacheProvider_Inr:
  "createCacheProvider cfg idb = Inr st \<Longrightarrow>
   openDB idb (version cfg) (upgrade cfg) = Inr d \<Longrightarrow>
   objectStores d (storeName cfg) = Some recs \<Longrightarrow>
     \<exists>m s. cursor_loop (storageHandler cfg) recs [] recs = Inr (m, s) \<and>
       st = \<lparr>the_map = m,
             the_db = d\<lparr>objectStores := (objectStores d)(storeName cfg \<mapsto> s)\<rparr>,
             issued = [], onError_calls = [], unhandled = []\<rparr>"
  by (auto simp: createCacheProvider_def split: sum.splits)







lemma openDB_version:
  "openDB idb v up = Inr d \<Longrightarrow> v \<noteq> 0 \<and> v \<le> 9007199254740991 \<and> db_version d = v"
  by (auto simp: openDB_def split: if_splits sum.splits)

lemma openDB_same:
  "v \<noteq> 0 \<Longrightarrow> v \<le> 9007199254740991 \<Longrightarrow> db_version d = v \<Longrightarrow> openDB d v up = Inr d"
  by (simp add: openDB_def)

lemma cursor_loop_nothing_stale:
  "\<forall>(k, r) \<in> set rest. revive h k r \<noteq> Inr None \<Longrightarrow>
   cursor_loop h rest m s = Inr (m', s') \<Longrightarrow> s' = s"
proof (induction rest arbitrary: m)
  case Nil
  then show ?case by simp
next
  case (Cons p rest)
  obtain k0 r0 where p: "p = (k0, r0)" by (cases p)
  from Cons.prems(1) p have ns: "revive h k0 r0 \<noteq> Inr None"
    and rest: "\<forall>(k, r) \<in> set rest. revive h k r \<noteq> Inr None" by auto
  from Cons.prems(2) p ns obtain v where "revive h k0 r0 = Inr (Some v)"
    and "cursor_loop h rest (Map_set k0 v m) s = Inr (m', s')"
    by (auto split: sum.splits option.splits)
  with Cons.IH [OF rest] show ?case by blast
qed

text \<open>
  C8. When \<^verbatim>\<open>revive\<close> finds no record of the opened object store stale, constructing
  the provider leaves the database as it was opened, and constructing it again from
  that database gives the same map (the same keys, values and order).
\<close>

theorem hydration_idempotent:
  assumes "openDB idb (version cfg) (upgrade cfg) = Inr d"
    and "objectStores d (storeName cfg) = Some recs"
    and "\<forall>(k, r) \<in> set recs. revive (storageHandler cfg) k r \<noteq> Inr None"
    and "createCacheProvider cfg idb = Inr st"
  shows "the_db st = d \<and> createCacheProvider cfg d = Inr st"
proof -
  from createCacheProvider_Inr [OF assms(4) assms(1) assms(2)]
  obtain m s where loop: "cursor_loop (storageHandler cfg) recs [] recs = Inr (m, s)"
    and st: "st = \<lparr>the_map = m,
             the_db = d\<lparr>objectStores := (objectStores d)(storeName cfg \<mapsto> s)\<rparr>,
             issued = [], onError_calls = [], unhandled = []\<rparr>" by blast
  from cursor_loop_nothing_stale [OF assms(3) loop] have s: "s = recs" .
  from assms(2) have "(objectStores d)(storeName cfg \<mapsto> recs) = objectStores d"
    by (simp add: fun_upd_idem)
  with st s have db: "the_db st = d" by simp
  from openDB_version [OF assms(1)]
  have "openDB d (version cfg) (upgrade cfg) = Inr d" by (simp add: openDB_same)
  with assms(2) loop st have "createCacheProvider cfg d = Inr st"
    by (simp add: createCacheProvider_def)
  with db show ?thesis by simp
qed

theorem hydration_idempotent_witness:
  "createCacheProvider (config_of simpleStorageHandler 1)
      (database_of 1 [(''user:1'', result_of 1)])
     = Inr (provider_of [(''user:1'', result_of 1)] [(''user:1'', result_of 1)]) \<and>
   the_db (provider_of [(''user:1'', result_of 1)] [(''user:1'', result_of 1)]
      :: (nat, nat TState) provider) = database_of 1 [(''user:1'', result_of 1)]"
proof -
  let ?cfg = "config_of simpleStorageHandler 1 :: (nat, nat TState) TConfig"
  let ?recs = "[(''user:1'', result_of 1)]"
  let ?idb = "database_of 1 ?recs"
  let ?st = "provider_of ?recs ?recs :: (nat, nat TState) provider"
  have o: "openDB ?idb (version ?cfg) (upgrade ?cfg) = Inr ?idb"
    by (simp add: openDB_def database_of_def config_of_def)
  have s: "objectStores ?idb (storeName ?cfg) = Some ?recs"
    by (simp add: database_of_def config_of_def)
  have n: "\<forall>(k, r) \<in> set ?recs. revive (storageHandler ?cfg) k r \<noteq> Inr None"
    by (simp add: config_of_def simpleStorageHandler_def)
  have c: "createCacheProvider ?cfg ?idb = Inr ?st"
    unfolding createCacheProvider_def o
    by (simp add: database_of_def config_of_def simpleStorageHandler_def provider_of_def)
  from hydration_idempotent [OF o s n c] show ?thesis by simp
qed

section \<open>The version upgrade\<close>

text \<open>
  C7, as stated, fails. The upgrade hook of the handler receives the new object
  store: when it puts a record there, the map and the object store of the provider
  hold that record after the upgrade. The simpler variant creates the object store
  without deleting it first: on a database that holds the store, the upgrade throws
  and no provider is constructed. And a database at version \<^verbatim>\<open>2^53 - 1\<close> has no
  version above it to be opened with.
\<close>

theorem upgrade_keeps_hook_records_counterexample:
  "createCacheProvider (config_of seedingHandler 2) (database_of 1 [(''user:1'', result_of 1)])
     = Inr \<lparr>the_map = [(''seed'', result_of 0)],
            the_db = database_of 2 [(''seed'', result_of 0)],
            issued = [], onError_calls = [], unhandled = []\<rparr> \<and>
   createCacheProvider_simple (config_simple\<lparr>version_simple := 2\<rparr>)
      (database_of 1 [(''user:1'', 1)]) = Inl (DOMException ''AbortError'') \<and>
   createCacheProvider (config_of simpleStorageHandler 9007199254740992)
      (database_of 9007199254740991 [(''user:1'', result_of 1)]) = Inl TypeError"
  by (simp add: createCacheProvider_def createCacheProvider_simple_def openDB_def upgrade_def
      upgrade_simple_def deleteObjectStore_def createObjectStore_def config_of_def
      config_simple_def seedingHandler_def simpleStorageHandler_def database_of_def
      result_of_def)

text \<open>
  C7, amended. In the handler-driven variant, a database at version \<open>N \<ge> 1\<close> that
  holds the object store, opened by a provider of version \<open>N + 1\<close>, at most
  \<^verbatim>\<open>2^53 - 1\<close>, whose
  upgrade hook, if it has one, does not throw: the upgrade deletes the object store
  and creates it again, so that the provider is constructed from the records the hook
  left in the new store and from nothing of the old one. With no hook, or a hook that
  leaves the new store without records, the map and the object store are empty.
\<close>

theorem upgrade_wipes_store:
  assumes "db_version idb = N" and "N \<noteq> 0" and "version cfg = Suc N"
    and "Suc N \<le> 9007199254740991"
    and "objectStores idb (storeName cfg) = Some recs"
    and "(case upgradeObjectStore (storageHandler cfg) of
            None \<Rightarrow> Inr [] | Some hook \<Rightarrow> hook [] N) = Inr s"
  shows "createCacheProvider cfg idb =
           (case cursor_loop (storageHandler cfg) s [] s of
              Inl e \<Rightarrow> Inl e
            | Inr (m, s') \<Rightarrow>
                Inr \<lparr>the_map = m,
                     the_db = idb\<lparr>db_version := Suc N,
                       objectStores := (objectStores idb)(storeName cfg \<mapsto> s')\<rparr>,
                     issued = [], onError_calls = [], unhandled = []\<rparr>) \<and>
         (s = [] \<longrightarrow>
            (\<exists>st. createCacheProvider cfg idb = Inr st \<and> the_map st = [] \<and>
               durable cfg st = [] \<and> db_version (the_db st) = Suc N))"
proof -
  have opened: "openDB idb (version cfg) (upgrade cfg) =
      Inr (idb\<lparr>db_version := Suc N, objectStores := (objectStores idb)(storeName cfg \<mapsto> s)\<rparr>)"
  proof (cases "upgradeObjectStore (storageHandler cfg)")
    case None
    with assms show ?thesis
      by (simp add: openDB_def upgrade_def deleteObjectStore_def createObjectStore_def)
  next
    case (Some hook)
    with assms show ?thesis
      by (simp add: openDB_def upgrade_def deleteObjectStore_def createObjectStore_def)
  qed
  have first: "createCacheProvider cfg idb =
           (case cursor_loop (storageHandler cfg) s [] s of
              Inl e \<Rightarrow> Inl e
            | Inr (m, s') \<Rightarrow>
                Inr \<lparr>the_map = m,
                     the_db = idb\<lparr>db_version := Suc N,
                       objectStores := (objectStores idb)(storeName cfg \<mapsto> s')\<rparr>,
                     issued = [], onError_calls = [], unhandled = []\<rparr>)"
    by (simp add: createCacheProvider_def opened split: sum.splits)
  then have "s = [] \<longrightarrow>
            (\<exists>st. createCacheProvider cfg idb = Inr st \<and> the_map st = [] \<and>
               durable cfg st = [] \<and> db_version (the_db st) = Suc N)"
    by (simp add: durable_def)
  with first show ?thesis by blast
qed

theorem upgrade_wipes_store_witness:
  "\<exists>st. createCacheProvider (config_of simpleStorageHandler 2)
           (database_of 1 [(''user:1'', result_of 1)]) = Inr st \<and>
        the_map st = [] \<and> durable (config_of simpleStorageHandler 2) st = [] \<and>
        db_version (the_db st) = 2"
proof -
  let ?cfg = "config_of simpleStorageHandler 2 :: (nat, nat TState) TConfig"
  let ?recs = "[(''user:1'', result_of 1)]"
  let ?idb = "database_of 1 ?recs"
  have a: "db_version ?idb = 1" by (simp add: database_of_def)
  have b: "(1::nat) \<noteq> 0" by simp
  have c: "version ?cfg = Suc 1" by (simp add: config_of_def)
  have d: "Suc 1 \<le> 9007199254740991" by simp
  have e: "objectStores ?idb (storeName ?cfg) = Some ?recs"
    by (simp add: database_of_def config_of_def)
  have f: "(case upgradeObjectStore (storageHandler ?cfg) of
              None \<Rightarrow> Inr [] | Some hook \<Rightarrow> hook [] 1) = (Inr [] :: exn + nat TState IDBObjectStore)"
    by (simp add: config_of_def simpleStorageHandler_def)
  from upgrade_wipes_store [OF a b c d e f]
  have "\<exists>st. createCacheProvider ?cfg ?idb = Inr st \<and> the_map st = [] \<and>
          durable ?cfg st = [] \<and> db_version (the_db st) = Suc 1"
    by blast
  then show ?thesis by (simp add: numeral_2_eq_2)
qed

text \<open>
  The simpler variant creates the object store without deleting it first: an
  upgrade of a database that holds the store fails.
\<close>

lemma upgrade_simple_existing_store:
  assumes "db_version idb < version_simple cfg"
    and "version_simple cfg \<le> 9007199254740991"
    and "objectStores idb (storeName_simple cfg) = Some recs"
  shows "upgrade_simple cfg idb (db_version idb) = Inl (DOMException ''ConstraintError'') \<and>
         createCacheProvider_simple cfg idb = Inl (DOMException ''AbortError'')"
  using assms
  by (simp add: createCacheProvider_simple_def openDB_def upgrade_simple_def
      createObjectStore_def)

section \<open>Failures of the durable store\<close>

text \<open>
  A rejected \<^verbatim>\<open>put\<close> or \<^verbatim>\<open>delete\<close> is handed to \<^verbatim>\<open>onError\<close>; neither \<^verbatim>\<open>set\<close> nor
  \<^verbatim>\<open>delete\<close> leaves a rejection unhandled, and \<^verbatim>\<open>clear\<close> never calls \<^verbatim>\<open>onError\<close>.
\<close>

lemma onError_calls_cache_clear: "onError_calls (cache_clear cfg out st) = onError_calls st"
  by (simp add: cache_clear_def request_dropped_def split: sum.splits)

lemma unhandled_cache_set: "unhandled (fst (cache_set cfg k v out st)) = unhandled st"
  by (simp add: cache_set_def Let_def request_catch_def split: sum.splits option.splits)

lemma unhandled_cache_delete: "unhandled (cache_delete cfg k out st) = unhandled st"
  by (simp add: cache_delete_def Map_delete_def Let_def request_catch_def split: sum.splits)

lemma put_failure_routed:
  assumes "\<not> isFetchInfo v" and "replace (storageHandler cfg) k v = Inr (Some sv)"
    and "objectStores (the_db st) (storeName cfg) = Some s"
  shows "cache_set cfg k v (Rejected e) st =
           (st\<lparr>the_map := Map_set k v (the_map st),
               issued := issued st @ [Put (storeName cfg) sv k],
               onError_calls := onError_calls st @ [e]\<rparr>, None)"
  using assms by (simp add: cache_set_def request_catch_def db_request_def)

lemma delete_failure_routed:
  assumes "Map_has (the_map st) k"
    and "objectStores (the_db st) (storeName cfg) = Some s"
  shows "cache_delete cfg k (Rejected e) st =
           st\<lparr>the_map := filter (\<lambda>p. fst p \<noteq> k) (the_map st),
              issued := issued st @ [Delete (storeName cfg) k],
              onError_calls := onError_calls st @ [e]\<rparr>"
  using assms by (simp add: cache_delete_def Map_delete_def request_catch_def db_request_def)

text \<open>
  C4. Every failure of a request issued by \<^verbatim>\<open>set\<close>, \<^verbatim>\<open>delete\<close> or \<^verbatim>\<open>clear\<close> reaches
  \<^verbatim>\<open>onError\<close> and none reaches the caller. For \<^verbatim>\<open>clear\<close> the code does otherwise:
  \<^verbatim>\<open>db.clear(storeName)\<close> has no \<^verbatim>\<open>.catch(onError)\<close>, so a rejected clear empties the
  map, calls \<^verbatim>\<open>onError\<close> with nothing and is left as an unhandled rejection.
\<close>

theorem clear_failure_not_routed:
  "cache_clear (config_of simpleStorageHandler 1) (Rejected (DOMException ''InvalidStateError''))
     (provider_of [(''user:1'', result_of 1)] [(''user:1'', result_of 1)]) =
   \<lparr>the_map = [], the_db = database_of 1 [(''user:1'', result_of 1)],
    issued = [Clear ''responses''], onError_calls = [],
    unhandled = [DOMException ''InvalidStateError'']\<rparr>"
  by (simp add: cache_clear_def request_dropped_def db_request_def config_of_def
      provider_of_def database_of_def)

section \<open>Deleting a key\<close>

lemma issued_request_catch: "issued (request_catch rq out st) = issued st @ [rq]"
  by (simp add: request_catch_def split: sum.splits)

lemma issued_request_simple: "issued_simple (request_simple rq out st) = issued_simple st @ [rq]"
  by (simp add: request_simple_def split: sum.splits)

text \<open>
  C5, as stated, fails. In the handler-driven variant \<^verbatim>\<open>delete\<close> asks nothing about
  persistence: a key whose entry \<^verbatim>\<open>set\<close> kept out of the durable store (no request was
  issued for it) has a delete issued against the durable store. And a key that was
  never set can be in the map, loaded from the durable store: its \<^verbatim>\<open>delete\<close> changes
  the map and issues a request.
\<close>

theorem delete_eligibility_counterexample:
  "cache_get ''k'' (fst (cache_set (config_of simpleStorageHandler 1) ''k'' validating Fulfilled
      (provider_of [] []))) = Some validating \<and>
   \<not> eligible (config_of simpleStorageHandler 1) ''k'' validating \<and>
   issued (fst (cache_set (config_of simpleStorageHandler 1) ''k'' validating Fulfilled
      (provider_of [] []))) = [] \<and>
   issued (cache_delete (config_of simpleStorageHandler 1) ''k'' Fulfilled
      (fst (cache_set (config_of simpleStorageHandler 1) ''k'' validating Fulfilled
         (provider_of [] [])))) = [Delete ''responses'' ''k''] \<and>
   createCacheProvider (config_of simpleStorageHandler 1) (database_of 1 [(''k'', result_of 1)])
     = Inr (provider_of [(''k'', result_of 1)] [(''k'', result_of 1)]) \<and>
   cache_delete (config_of simpleStorageHandler 1) ''k'' Fulfilled
      (provider_of [(''k'', result_of 1)] [(''k'', result_of 1)]) =
     \<lparr>the_map = [], the_db = database_of 1 [], issued = [Delete ''responses'' ''k''],
      onError_calls = [], unhandled = []\<rparr>"
  by (simp add: cache_get_def Map_get_def cache_set_def cache_delete_def Map_delete_def
      Map_has_def eligible_def isFetchInfo_def validating_def result_of_def config_of_def
      simpleStorageHandler_def provider_of_def database_of_def request_catch_def
      db_request_def store_delete_def createCacheProvider_def openDB_def)

text \<open>
  C5, amended. In the handler-driven variant \<^verbatim>\<open>delete(key)\<close> issues a delete against
  the durable store exactly when the map held the key; in the simpler variant, exactly
  when the map held the key and the key does not start with \<^verbatim>\<open>$\<close>. In both, the
  \<^verbatim>\<open>delete\<close> of a key the map does not hold changes nothing and issues nothing.
\<close>

theorem delete_issues_request:
  "issued (cache_delete cfg k out st) =
     issued st @ (if Map_has (the_map st) k then [Delete (storeName cfg) k] else []) \<and>
   issued_simple (cache_delete_simple cfg' k out st') =
     issued_simple st' @
       (if Map_has (the_map_simple st') k \<and> isResponseResult k
        then [Delete (storeName_simple cfg') k] else []) \<and>
   (\<not> Map_has (the_map st) k \<longrightarrow> cache_delete cfg k out st = st) \<and>
   (\<not> Map_has (the_map_simple st') k \<longrightarrow> cache_delete_simple cfg' k out st' = st')"
  by (simp add: cache_delete_def cache_delete_simple_def Map_delete_def Let_def
      issued_request_catch issued_request_simple Map_has_def filter_absent)

theorem delete_issues_request_witness:
  "cache_delete (config_of simpleStorageHandler 1) ''ghost'' Fulfilled
      (provider_of [(''k'', validating)] []) = provider_of [(''k'', validating)] [] \<and>
   cache_delete_simple config_simple ''ghost'' Fulfilled (provider_simple_of [(''$k'', 1)] [])
     = provider_simple_of [(''$k'', 1)] [] \<and>
   issued_simple (cache_delete_simple config_simple ''$k'' Fulfilled
      (provider_simple_of [(''$k'', 1)] [])) = []"
  using delete_issues_request [of "config_of simpleStorageHandler 1" "''ghost''" Fulfilled
      "provider_of [(''k'', validating)] []" config_simple "provider_simple_of [(''$k'', 1)] []"]
    delete_issues_request [of "config_of simpleStorageHandler 1" "''$k''" Fulfilled
      "provider_of [(''k'', validating)] []" config_simple "provider_simple_of [(''$k'', 1)] []"]
  by (simp add: Map_has_def provider_of_def provider_simple_of_def)

section \<open>What the durable store holds\<close>

lemma db_request_records:
  assumes "db_request rq out d = Inr d'"
    and "map_of (case objectStores d' name of None \<Rightarrow> [] | Some s \<Rightarrow> s) k = Some r"
  shows "map_of (case objectStores d name of None \<Rightarrow> [] | Some s \<Rightarrow> s) k = Some r \<or>
         (\<exists>n. rq = Put n r k)"
proof (cases rq)
  case (Put n v k')
  with assms show ?thesis
    by (auto simp: db_request_def map_of_store_put split: option.splits outcome.splits if_splits)
next
  case (Delete n k')
  with assms show ?thesis
    by (auto simp: db_request_def map_of_store_delete split: option.splits outcome.splits if_splits)
next
  case (Clear n)
  with assms show ?thesis
    by (auto simp: db_request_def split: option.splits outcome.splits if_splits)
qed

lemma durable_request_catch:
  assumes "map_of (durable cfg (request_catch rq out st)) k = Some r"
  shows "map_of (durable cfg st) k = Some r \<or> (\<exists>n. rq = Put n r k)"
proof (cases "db_request rq out (the_db st)")
  case (Inl e)
  with assms show ?thesis by (simp add: request_catch_def durable_def)
next
  case (Inr d')
  with assms have "map_of (case objectStores d' (storeName cfg) of None \<Rightarrow> [] | Some s \<Rightarrow> s) k
      = Some r"
    by (simp add: request_catch_def durable_def)
  from db_request_records [OF Inr this] show ?thesis by (simp add: durable_def)
qed

lemma durable_request_dropped:
  assumes "map_of (durable cfg (request_dropped rq out st)) k = Some r"
  shows "map_of (durable cfg st) k = Some r \<or> (\<exists>n. rq = Put n r k)"
proof (cases "db_request rq out (the_db st)")
  case (Inl e)
  with assms show ?thesis by (simp add: request_dropped_def durable_def)
next
  case (Inr d')
  with assms have "map_of (case objectStores d' (storeName cfg) of None \<Rightarrow> [] | Some s \<Rightarrow> s) k
      = Some r"
    by (simp add: request_dropped_def durable_def)
  from db_request_records [OF Inr this] show ?thesis by (simp add: durable_def)
qed

lemma durable_set_map [simp]: "durable cfg (st\<lparr>the_map := m\<rparr>) = durable cfg st"
  by (simp add: durable_def)

lemma durable_cache_set:
  assumes "map_of (durable cfg (fst (cache_set cfg k' v out st))) k = Some r"
  shows "map_of (durable cfg st) k = Some r \<or>
         (k' = k \<and> \<not> isFetchInfo v \<and> replace (storageHandler cfg) k v = Inr (Some r))"
proof (cases "isFetchInfo v")
  case True
  with assms show ?thesis by (simp add: cache_set_def)
next
  case False
  show ?thesis
  proof (cases "replace (storageHandler cfg) k' v")
    case (Inl e)
    with False assms show ?thesis by (simp add: cache_set_def)
  next
    case (Inr osv)
    show ?thesis
    proof (cases osv)
      case None
      with Inr False assms show ?thesis by (simp add: cache_set_def)
    next
      case (Some sv)
      with Inr False assms
      have "map_of (durable cfg (request_catch (Put (storeName cfg) sv k') out
              (st\<lparr>the_map := Map_set k' v (the_map st)\<rparr>))) k = Some r"
        by (simp add: cache_set_def)
      from durable_request_catch [OF this] Inr Some False show ?thesis by auto
    qed
  qed
qed

lemma durable_cache_delete:
  assumes "map_of (durable cfg (cache_delete cfg k' out st)) k = Some r"
  shows "map_of (durable cfg st) k = Some r"
proof (cases "Map_has (the_map st) k'")
  case True
  with assms have "map_of (durable cfg (request_catch (Delete (storeName cfg) k') out
      (st\<lparr>the_map := filter (\<lambda>p. fst p \<noteq> k') (the_map st)\<rparr>))) k = Some r"
    by (simp add: cache_delete_def Map_delete_def)
  from durable_request_catch [OF this] show ?thesis by simp
next
  case False
  with assms show ?thesis by (simp add: cache_delete_def Map_delete_def)
qed

lemma durable_cache_clear:
  assumes "map_of (durable cfg (cache_clear cfg out st)) k = Some r"
  shows "map_of (durable cfg st) k = Some r"
  using durable_request_dropped [of cfg "Clear (storeName cfg)" out "st\<lparr>the_map := []\<rparr>" k r] assms
  by (simp add: cache_clear_def)

lemma durable_step:
  assumes "map_of (durable cfg (step cfg st (c, out))) k = Some r"
  shows "map_of (durable cfg st) k = Some r \<or>
         (\<exists>v. c = Set k v \<and> \<not> isFetchInfo v \<and>
              replace (storageHandler cfg) k v = Inr (Some r))"
proof (cases c)
  case (Set k' v)
  with assms durable_cache_set [of cfg k' v out st k r] show ?thesis by auto
next
  case (Del k')
  with assms durable_cache_delete [of cfg k' out st k r] show ?thesis by simp
next
  case Clr
  with assms durable_cache_clear [of cfg out st k r] show ?thesis by simp
qed

lemma durable_run:
  "map_of (durable cfg (run cfg cs st)) k = Some r \<Longrightarrow>
     map_of (durable cfg st) k = Some r \<or>
     (\<exists>v out. (Set k v, out) \<in> set cs \<and> \<not> isFetchInfo v \<and>
        replace (storageHandler cfg) k v = Inr (Some r))"
proof (induction cs rule: rev_induct)
  case Nil
  then show ?case by (simp add: run_def)
next
  case (snoc c cs)
  obtain a out where c: "c = (a, out)" by (cases c)
  from snoc.prems have "map_of (durable cfg (step cfg (run cfg cs st) (a, out))) k = Some r"
    by (simp add: run_snoc c)
  from durable_step [OF this] show ?case
  proof
    assume "map_of (durable cfg (run cfg cs st)) k = Some r"
    from snoc.IH [OF this] show ?thesis by auto
  next
    assume "\<exists>v. a = Set k v \<and> \<not> isFetchInfo v \<and>
              replace (storageHandler cfg) k v = Inr (Some r)"
    with c show ?thesis by auto
  qed
qed

lemma db_request_other_key:
  assumes "db_request rq out d = Inr d'"
    and "case rq of Put _ _ k' \<Rightarrow> k' \<noteq> k | Delete _ k' \<Rightarrow> k' \<noteq> k | Clear _ \<Rightarrow> False"
  shows "map_of (case objectStores d' name of None \<Rightarrow> [] | Some s \<Rightarrow> s) k =
         map_of (case objectStores d name of None \<Rightarrow> [] | Some s \<Rightarrow> s) k"
  using assms
  by (cases rq)
     (auto simp: db_request_def map_of_store_put map_of_store_delete
        split: option.splits outcome.splits if_splits)

lemma durable_simple_request:
  assumes "case rq of Put _ _ k' \<Rightarrow> k' \<noteq> k | Delete _ k' \<Rightarrow> k' \<noteq> k | Clear _ \<Rightarrow> False"
  shows "map_of (durable_simple cfg (request_simple rq out st)) k =
         map_of (durable_simple cfg st) k"
proof (cases "db_request rq out (the_db_simple st)")
  case (Inl e)
  then show ?thesis by (simp add: request_simple_def durable_simple_def)
next
  case (Inr d')
  from db_request_other_key [OF Inr assms, of "storeName_simple cfg"] Inr show ?thesis
    by (simp add: request_simple_def durable_simple_def)
qed

lemma durable_simple_set_map [simp]:
  "durable_simple cfg (st\<lparr>the_map_simple := m\<rparr>) = durable_simple cfg st"
  by (simp add: durable_simple_def)

lemma durable_step_simple:
  assumes "\<not> isResponseResult k"
  shows "map_of (durable_simple cfg (step_simple cfg st (c, out))) k =
         map_of (durable_simple cfg st) k"
proof (cases c)
  case (Set_simple k' v)
  show ?thesis
  proof (cases "isResponseResult k'")
    case True
    with assms have ne: "k' \<noteq> k" by auto
    show ?thesis
    proof (cases "replace_simple (storageHandler_simple cfg) v")
      case (Inl e)
      with Set_simple True show ?thesis by (simp add: cache_set_simple_def)
    next
      case (Inr sv)
      with Set_simple True ne show ?thesis
        by (simp add: cache_set_simple_def durable_simple_request)
    qed
  next
    case False
    with Set_simple show ?thesis by (simp add: cache_set_simple_def)
  qed
next
  case (Del_simple k')
  show ?thesis
  proof (cases "Map_has (the_map_simple st) k' \<and> isResponseResult k'")
    case True
    with assms have ne: "k' \<noteq> k" by auto
    with Del_simple True show ?thesis
      by (simp add: cache_delete_simple_def Map_delete_def durable_simple_request)
  next
    case False
    with Del_simple show ?thesis
      by (auto simp: cache_delete_simple_def Map_delete_def)
  qed
qed

lemma durable_run_simple:
  "\<not> isResponseResult k \<Longrightarrow>
     map_of (durable_simple cfg (run_simple cfg cs st)) k = map_of (durable_simple cfg st) k"
proof (induction cs rule: rev_induct)
  case Nil
  show ?case by (simp add: run_simple_def)
next
  case (snoc c cs)
  obtain a out where c: "c = (a, out)" by (cases c)
  have "run_simple cfg (cs @ [c]) st = step_simple cfg (run_simple cfg cs st) (a, out)"
    by (simp add: run_simple_def c)
  with snoc show ?case by (simp add: durable_step_simple)
qed

text \<open>
  C6, amended. In the handler-driven variant, a record the object store holds under
  a key after a sequence of calls was there before the sequence, or is the handler's
  encoding of an entry that is not in flight and that a \<^verbatim>\<open>set\<close> of the sequence gave
  for that key. In the simpler variant no call changes what the object store holds
  under a key that starts with \<^verbatim>\<open>$\<close>.
\<close>

theorem durable_records_origin:
  "(map_of (durable cfg (run cfg cs st)) k = Some r \<longrightarrow>
      map_of (durable cfg st) k = Some r \<or>
      (\<exists>v out. (Set k v, out) \<in> set cs \<and> \<not> isFetchInfo v \<and>
         replace (storageHandler cfg) k v = Inr (Some r))) \<and>
   (\<not> isResponseResult k' \<longrightarrow>
      map_of (durable_simple cfg' (run_simple cfg' cs' st')) k' =
      map_of (durable_simple cfg' st') k')"
  using durable_run [of cfg cs st k r] durable_run_simple [of k' cfg' cs' st'] by blast

theorem durable_records_origin_witness:
  "map_of (durable (config_of simpleStorageHandler 1)
      (run (config_of simpleStorageHandler 1) [(Set ''user:1'' (result_of 1), Fulfilled)]
         (provider_of [] []))) ''user:1'' = Some (result_of 1) \<and>
   (\<exists>v out. (Set ''user:1'' v, out) \<in> set [(Set ''user:1'' (result_of 1), Fulfilled)] \<and>
      \<not> isFetchInfo v \<and>
      replace (storageHandler (config_of simpleStorageHandler 1)) ''user:1'' v
        = Inr (Some (result_of 1))) \<and>
   map_of (durable_simple config_simple
      (run_simple config_simple [(Set_simple ''$req$a'' 5, Fulfilled)]
         (provider_simple_of [] []))) ''$req$a'' = None"
proof -
  let ?cfg = "config_of simpleStorageHandler 1 :: (nat, nat TState) TConfig"
  let ?cs = "[(Set ''user:1'' (result_of 1), Fulfilled)]"
  let ?st = "provider_of [] [] :: (nat, nat TState) provider"
  let ?cs' = "[(Set_simple ''$req$a'' (5::nat), Fulfilled)]"
  let ?st' = "provider_simple_of [] [] :: (nat, nat) provider_simple"
  note origin = durable_records_origin [of ?cfg ?cs ?st "''user:1''" "result_of 1"
      "''$req$a''" config_simple ?cs' ?st']
  have a: "map_of (durable ?cfg (run ?cfg ?cs ?st)) ''user:1'' = Some (result_of 1)"
    by (simp add: run_def cache_set_def isFetchInfo_def result_of_def config_of_def
        simpleStorageHandler_def provider_of_def database_of_def request_catch_def
        db_request_def durable_def)
  have b: "map_of (durable ?cfg ?st) ''user:1'' = None"
    by (simp add: durable_def provider_of_def database_of_def config_of_def)
  have c: "\<not> isResponseResult ''$req$a''" by simp
  have d: "map_of (durable_simple config_simple ?st') ''$req$a'' = None"
    by (simp add: durable_simple_def provider_simple_of_def database_of_def config_simple_def)
  from origin a b c d show ?thesis by simp
qed

text \<open>
  C6, as stated, fails on the handler-driven variant. After \<^verbatim>\<open>set\<close> of a result and
  then \<^verbatim>\<open>set\<close> of an in-flight state for the same key, with every request settled,
  the map holds the in-flight state and the object store still holds the record of
  the result: the second \<^verbatim>\<open>set\<close> issues nothing, and so removes nothing. And this
  variant looks at no key shape: a result set under a key that starts with \<^verbatim>\<open>$\<close> is
  put in the object store.
\<close>

theorem transient_record_counterexample:
  "createCacheProvider (config_of simpleStorageHandler 1) no_database
     = Inr (provider_of [] [] :: (nat, nat TState) provider) \<and>
   cache_get ''user:2''
     (run (config_of simpleStorageHandler 1)
        [(Set ''user:2'' (result_of 1), Fulfilled), (Set ''user:2'' validating, Fulfilled)]
        (provider_of [] [])) = Some validating \<and>
   isFetchInfo validating \<and>
   map_of (durable (config_of simpleStorageHandler 1)
     (run (config_of simpleStorageHandler 1)
        [(Set ''user:2'' (result_of 1), Fulfilled), (Set ''user:2'' validating, Fulfilled)]
        (provider_of [] []))) ''user:2'' = Some (result_of 1) \<and>
   \<not> isResponseResult ''$inf$k'' \<and>
   map_of (durable (config_of simpleStorageHandler 1)
     (run (config_of simpleStorageHandler 1) [(Set ''$inf$k'' (result_of 1), Fulfilled)]
        (provider_of [] []))) ''$inf$k'' = Some (result_of 1)"
  by (simp add: createCacheProvider_def openDB_def upgrade_def createObjectStore_def
      no_database_def run_def cache_get_def Map_get_def cache_set_def isFetchInfo_def
      result_of_def validating_def config_of_def simpleStorageHandler_def provider_of_def
      database_of_def request_catch_def db_request_def durable_def)

end
